theory Spec2Isabelle
  imports Main "HOL-Library.Sublist"
begin

section \<open>Outcomes of Go code\<close>

text \<open>
  A Go function either returns, panics (which unwinds the whole analysis, nothing in the
  package recovers) or ends the process with \<open>os.Exit\<close>.  The two ways of not returning are
  values of \<open>abort\<close>; a function that may abort returns \<open>abort + 'a\<close>.  A Go \<open>error\<close> is an
  optional message, \<open>None\<close> being \<open>nil\<close>.  Output written with \<open>log.Printf\<close> and \<open>fmt.Printf\<close>
  is not part of the model, except for the positions of the findings.
\<close>

datatype abort = Panic string | Exit int

type_synonym error = "string option"

section \<open>The observed fragment of go/types\<close>

text \<open>
  The analysis asks two questions of a type: is it the predeclared \<open>string\<close> type
  (\<open>t != types.Typ[types.String]\<close>, an identity test), and is its underlying type an
  interface (\<open>types.IsInterface\<close>).
\<close>

datatype gotype =
    TString
  | TBasic string
  | TInterface
  | TNamed string gotype
  | TComposite string

fun IsInterface :: "gotype \<Rightarrow> bool" where
  "IsInterface TInterface = True"
| "IsInterface (TNamed _ u) = IsInterface u"
| "IsInterface _ = False"

record types_Var =
  var_name :: string
  var_type :: gotype

section \<open>The observed fragment of go/ssa\<close>

text \<open>
  An \<open>*ssa.Function\<close> is a heap object; \<open>fn_addr\<close> stands for its address, so that two
  functions are the same pointer exactly when the records are equal.  \<open>fn_pkg\<close> is
  \<open>fn.Pkg.Pkg.Path()\<close>, absent when \<open>fn.Pkg\<close> is nil (the synthetic root of a call graph,
  wrappers and bound-method closures); \<open>fn_source\<close> says that the function comes from
  source code (it is not synthetic) and \<open>fn_init\<close> that it is its package's initializer.
\<close>

record ssa_Function =
  fn_addr :: nat
  fn_name :: string
  fn_pkg :: "string option"
  fn_source :: bool
  fn_init :: bool

text \<open>
  SSA values.  \<open>Const\<close> is a literal or named compile-time constant, \<open>MakeInterface t x rs\<close>
  boxes the value \<open>x\<close> into the interface type \<open>t\<close>, \<open>Global\<close> and \<open>NamedFunc\<close> are
  package-level objects, and \<open>Register k t rs\<close> is any other function-local value (a
  parameter, a call, a binary operation, a phi node, ...) of kind \<open>k\<close>.  The lists \<open>rs\<close>
  hold the addresses of the instructions that use the value.
\<close>

datatype ssa_Value =
    Const gotype string
  | MakeInterface gotype ssa_Value "nat list"
  | Global gotype string
  | NamedFunc gotype string
  | Register string gotype "nat list"

fun Type_of :: "ssa_Value \<Rightarrow> gotype" where
  "Type_of (Const t _) = t"
| "Type_of (MakeInterface t _ _) = t"
| "Type_of (Global t _) = t"
| "Type_of (NamedFunc t _) = t"
| "Type_of (Register _ t _) = t"

text \<open>
  \<open>Referrers()\<close> returns a pointer to the list of users; it is nil (\<open>None\<close>) for constants,
  globals and named functions and a pointer to the list, empty or not, for function-local
  values.
\<close>

fun Referrers :: "ssa_Value \<Rightarrow> nat list option" where
  "Referrers (Const _ _) = None"
| "Referrers (MakeInterface _ _ rs) = Some rs"
| "Referrers (Global _ _) = None"
| "Referrers (NamedFunc _ _) = None"
| "Referrers (Register _ _ rs) = Some rs"

fun is_Const :: "ssa_Value \<Rightarrow> bool" where
  "is_Const (Const _ _) = True"
| "is_Const _ = False"

text \<open>
  A call instruction: its position, the function that contains it (\<open>Parent()\<close>) and the
  argument values of \<open>Common().Args\<close>, receiver first when the call is a static method call.
\<close>

record ssa_CallInstruction =
  Pos :: nat
  Parent :: ssa_Function
  Args :: "ssa_Value list"

section \<open>The call graph\<close>

text \<open>
  \<open>callgraph.Graph\<close> keeps one node per function in the map \<open>Nodes\<close>; a node is referred to
  by its function.  The map is an association list, whose order is the order in which a
  \<open>range\<close> over the map happens to visit it.  The \<open>Site\<close> of an edge is nil for edges that
  leave the synthetic root.
\<close>

record callgraph_Edge =
  Caller :: ssa_Function
  Site :: "ssa_CallInstruction option"
  Callee :: ssa_Function

record callgraph_Node =
  In :: "callgraph_Edge list"
  Out :: "callgraph_Edge list"

type_synonym node_map = "(ssa_Function \<times> callgraph_Node) list"

record callgraph_Graph =
  Root :: "ssa_Function option"
  Nodes :: node_map

definition node_In :: "node_map \<Rightarrow> ssa_Function \<Rightarrow> callgraph_Edge list" where
  "node_In ns f = (case map_of ns f of None \<Rightarrow> [] | Some n \<Rightarrow> In n)"

definition node_Out :: "node_map \<Rightarrow> ssa_Function \<Rightarrow> callgraph_Edge list" where
  "node_Out ns f = (case map_of ns f of None \<Rightarrow> [] | Some n \<Rightarrow> Out n)"

definition update_node ::
  "ssa_Function \<Rightarrow> (callgraph_Node \<Rightarrow> callgraph_Node) \<Rightarrow> node_map \<Rightarrow> node_map" where
  "update_node f h ns = map (\<lambda>(k, n). if k = f then (k, h n) else (k, n)) ns"

text \<open>
  \<open>Graph.DeleteSyntheticNodes\<close> belongs to golang.org/x/tools/go/callgraph.  The engine
  calls it first, so it is part of what the engine does to its argument; the definitions
  below follow that package: \<open>AddEdge\<close> appends the new edge to the callee's \<open>In\<close> and to
  the caller's \<open>Out\<close>; \<open>DeleteNode\<close> unlinks every edge of the node from its other end and
  drops the node from the map; \<open>DeleteSyntheticNodes\<close> first collects all edges, then visits
  every node, keeps the root, package initializers and functions from source code, and
  for any other node connects each caller to each callee (unless that edge exists) before
  deleting the node.  The package panics with \<open>edge not found\<close> when an edge to be
  removed is missing from the list at its other end.  Every edge the package creates is
  entered at both ends by \<open>AddEdge\<close>, so this happens only on a graph that was not built
  through the package; such graphs are outside the model, where the removal of a missing
  edge leaves the list as it is.
\<close>

definition AddEdge ::
  "ssa_Function \<Rightarrow> ssa_CallInstruction option \<Rightarrow> ssa_Function \<Rightarrow> node_map \<Rightarrow> node_map" where
  "AddEdge caller site callee ns =
     (let e = \<lparr>Caller = caller, Site = site, Callee = callee\<rparr> in
      update_node caller (\<lambda>n. n\<lparr>Out := Out n @ [e]\<rparr>)
        (update_node callee (\<lambda>n. n\<lparr>In := In n @ [e]\<rparr>) ns))"

text \<open>
  The package removes an edge from a list by moving the last edge of the list into its
  place and cutting the list by one.  An edge is found by pointer identity there and by
  equality of its three fields here; the first match is taken.
\<close>

fun swap_remove :: "callgraph_Edge \<Rightarrow> callgraph_Edge list \<Rightarrow> callgraph_Edge list" where
  "swap_remove edge [] = []"
| "swap_remove edge (e # es) =
     (if e = edge then (if es = [] then [] else last es # butlast es)
      else e # swap_remove edge es)"

definition removeOutEdge :: "callgraph_Edge \<Rightarrow> node_map \<Rightarrow> node_map" where
  "removeOutEdge e ns = update_node (Caller e) (\<lambda>n. n\<lparr>Out := swap_remove e (Out n)\<rparr>) ns"

definition removeInEdge :: "callgraph_Edge \<Rightarrow> node_map \<Rightarrow> node_map" where
  "removeInEdge e ns = update_node (Callee e) (\<lambda>n. n\<lparr>In := swap_remove e (In n)\<rparr>) ns"

definition DeleteNode :: "ssa_Function \<Rightarrow> node_map \<Rightarrow> node_map" where
  "DeleteNode f ns =
     (let ns1 = fold removeOutEdge (node_In ns f) ns;
          ns2 = update_node f (\<lambda>n. n\<lparr>In := []\<rparr>) ns1;
          ns3 = fold removeInEdge (node_Out ns2 f) ns2;
          ns4 = update_node f (\<lambda>n. n\<lparr>Out := []\<rparr>) ns3
      in filter (\<lambda>(k, n). k \<noteq> f) ns4)"

fun inline_outs ::
  "callgraph_Edge \<Rightarrow> callgraph_Edge list \<Rightarrow> node_map \<times> callgraph_Edge list
     \<Rightarrow> node_map \<times> callgraph_Edge list" where
  "inline_outs eIn [] st = st"
| "inline_outs eIn (eOut # outs) (ns, edges) =
     (let newEdge = \<lparr>Caller = Caller eIn, Site = Site eIn, Callee = Callee eOut\<rparr> in
      if List.member edges newEdge then inline_outs eIn outs (ns, edges)
      else inline_outs eIn outs
             (AddEdge (Caller eIn) (Site eIn) (Callee eOut) ns, newEdge # edges))"

fun inline_ins ::
  "ssa_Function \<Rightarrow> callgraph_Edge list \<Rightarrow> node_map \<times> callgraph_Edge list
     \<Rightarrow> node_map \<times> callgraph_Edge list" where
  "inline_ins f [] st = st"
| "inline_ins f (eIn # ins) (ns, edges) =
     inline_ins f ins (inline_outs eIn (node_Out ns f) (ns, edges))"

definition keep_node :: "ssa_Function option \<Rightarrow> ssa_Function \<Rightarrow> bool" where
  "keep_node root f = (root = Some f \<or> fn_init f \<or> fn_source f)"

fun prune_loop ::
  "ssa_Function option \<Rightarrow> ssa_Function list \<Rightarrow> node_map \<times> callgraph_Edge list
     \<Rightarrow> node_map \<times> callgraph_Edge list" where
  "prune_loop root [] st = st"
| "prune_loop root (f # fs) (ns, edges) =
     (if keep_node root f then prune_loop root fs (ns, edges)
      else (case inline_ins f (node_In ns f) (ns, edges) of
              (ns', edges') \<Rightarrow> prune_loop root fs (DeleteNode f ns', edges')))"

definition DeleteSyntheticNodes :: "callgraph_Graph \<Rightarrow> callgraph_Graph" where
  "DeleteSyntheticNodes g =
     g\<lparr>Nodes := fst (prune_loop (Root g) (map fst (Nodes g))
                        (Nodes g, concat (map (\<lambda>(k, n). Out n) (Nodes g))))\<rparr>"

section \<open>The sink catalog and the resolver\<close>

text \<open>
  \<open>sqlPackage\<close>: the library's import path and the parameter names that mark a query.  The
  struct's field \<open>pkg\<close> is never read and is left out.
\<close>

record sqlPackage =
  packageName :: string
  paramNames :: "string set"
  enable :: bool

definition sqlPackages :: "sqlPackage list" where
  "sqlPackages =
     [\<lparr>packageName = ''database/sql'', paramNames = {''query''}, enable = False\<rparr>,
      \<lparr>packageName = ''github.com/jinzhu/gorm'', paramNames = {''sql'', ''query''},
         enable = False\<rparr>,
      \<lparr>packageName = ''github.com/jmoiron/sqlx'', paramNames = {''query''}, enable = False\<rparr>]"

text \<open>
  A \<open>*types.Func\<close>: its name, whether it is exported, the path of its package (nil for the
  methods of the universe, such as \<open>error.Error\<close>), the parameters of its signature and the
  SSA function \<open>prog.FuncValue\<close> gives for it (nil for an interface method).
\<close>

record types_Func =
  func_name :: string
  func_exported :: bool
  func_pkg :: "string option"
  func_params :: "types_Var list"
  func_ssa :: "ssa_Function option"

text \<open>
  The objects of a package scope, in the order of \<open>scope.Names()\<close>.  A type name denotes a
  defined type with its declared methods (\<open>Named\<close>), or, for an alias, some other type.
\<close>

datatype types_Type = Named "types_Func list" | NotNamed gotype

datatype types_Object =
    TypeName string bool types_Type
  | OtherObject string bool

record QueryMethod =
  Func :: types_Func
  SSA :: "ssa_Function option"
  ArgCount :: int
  Param :: int

text \<open>\<open>FuncHasQuery\<close>: the loop over the parameters, \<open>i\<close> being the loop counter.\<close>

fun FuncHasQuery_from :: "sqlPackage \<Rightarrow> types_Var list \<Rightarrow> int \<Rightarrow> int \<times> bool" where
  "FuncHasQuery_from sp [] i = (0, False)"
| "FuncHasQuery_from sp (v # vs) i =
     (if var_name v \<in> paramNames sp then (i, True) else FuncHasQuery_from sp vs (i + 1))"

definition FuncHasQuery :: "sqlPackage \<Rightarrow> types_Var list \<Rightarrow> int \<times> bool" where
  "FuncHasQuery sp params = FuncHasQuery_from sp params 0"

text \<open>The loop over the methods of one named type.\<close>

fun FindQueryMethods_methods ::
  "sqlPackage \<Rightarrow> types_Func list \<Rightarrow> QueryMethod list \<Rightarrow> QueryMethod list" where
  "FindQueryMethods_methods sp [] methods = methods"
| "FindQueryMethods_methods sp (m # ms) methods =
     (if \<not> func_exported m then FindQueryMethods_methods sp ms methods
      else (case FuncHasQuery sp (func_params m) of
              (num, ok) \<Rightarrow>
                if ok then
                  FindQueryMethods_methods sp ms
                    (methods @ [\<lparr>Func = m, SSA = func_ssa m,
                                  ArgCount = int (length (func_params m)), Param = num\<rparr>])
                else FindQueryMethods_methods sp ms methods))"

text \<open>
  The loop over the scope.  The type assertion \<open>o.Type().(*types.Named)\<close> has no \<open>ok\<close>
  result, so it panics on an exported type name that does not denote a defined type.
\<close>

fun FindQueryMethods_names ::
  "sqlPackage \<Rightarrow> types_Object list \<Rightarrow> QueryMethod list \<Rightarrow> abort + QueryMethod list" where
  "FindQueryMethods_names sp [] methods = Inr methods"
| "FindQueryMethods_names sp (OtherObject name exported # os) methods =
     FindQueryMethods_names sp os methods"
| "FindQueryMethods_names sp (TypeName name exported t # os) methods =
     (if \<not> exported then FindQueryMethods_names sp os methods
      else (case t of
              NotNamed u \<Rightarrow> Inl (Panic ''interface conversion'')
            | Named ms \<Rightarrow>
                FindQueryMethods_names sp os (FindQueryMethods_methods sp ms methods)))"

definition FindQueryMethods :: "sqlPackage \<Rightarrow> types_Object list \<Rightarrow> abort + QueryMethod list" where
  "FindQueryMethods sp scope = FindQueryMethods_names sp scope []"

section \<open>The constant-reachability engine\<close>

definition isInternalSQLPkg :: "string \<Rightarrow> bool" where
  "isInternalSQLPkg path = (path \<in> set (map packageName sqlPackages))"

text \<open>
  The classification of the designated argument \<open>v\<close> of the call \<open>site\<close>: the result is
  the list \<open>bad\<close>, with the site appended when the argument is not accepted.
\<close>

definition classify ::
  "ssa_CallInstruction \<Rightarrow> ssa_Value \<Rightarrow> ssa_CallInstruction list \<Rightarrow> ssa_CallInstruction list" where
  "classify site v bad =
     (if is_Const v then bad
      else (case v of
              MakeInterface t x rs \<Rightarrow>
                if IsInterface t \<and> (Referrers x = None \<or> Type_of x \<noteq> TString) then bad
                else bad @ [site]
            | _ \<Rightarrow> bad @ [site]))"

text \<open>
  \<open>args[m.Param]\<close>, with Go's bounds check.  \<open>ArgCount\<close> and \<open>Param\<close> are Go \<open>int\<close>s; they
  are compared with lengths only, which stay far below \<open>2^63\<close>, so unbounded integers
  behave as the machine integers do.
\<close>

definition index_arg :: "ssa_Value list \<Rightarrow> int \<Rightarrow> abort + ssa_Value" where
  "index_arg args i =
     (if 0 \<le> i \<and> i < int (length args) then Inr (args ! nat i)
      else Inl (Panic ''index out of range''))"

text \<open>
  The argument list the index is applied to: without the receiver when there is one
  argument more than the signature has parameters.  The slice expression \<open>args[1:]\<close>
  panics on an empty list, which is reached when \<open>ArgCount\<close> is \<open>-1\<close>.
\<close>

definition select_args :: "QueryMethod \<Rightarrow> ssa_Value list \<Rightarrow> abort + ssa_Value list" where
  "select_args m args =
     (if int (length args) = ArgCount m + 1 then
        (case args of
           [] \<Rightarrow> Inl (Panic ''slice bounds out of range'')
         | a # rest \<Rightarrow> Inr rest)
      else if int (length args) \<noteq> ArgCount m then Inl (Panic ''arg count mismatch'')
      else Inr args)"

text \<open>The value \<open>v\<close> the engine inspects at a call site of the method \<open>m\<close>.\<close>

definition designated_arg :: "QueryMethod \<Rightarrow> ssa_CallInstruction \<Rightarrow> abort + ssa_Value" where
  "designated_arg m site =
     (case select_args m (Args site) of
        Inl p \<Rightarrow> Inl p
      | Inr args \<Rightarrow> index_arg args (Param m))"

text \<open>
  The body of the loop over the incoming edges of the node of \<open>m\<close>.  \<open>okFuncs\<close> is the set
  of the functions of all tracked methods.  A nil \<open>Site\<close> and a caller without a package
  are nil dereferences.
\<close>

definition edge_body ::
  "QueryMethod \<Rightarrow> ssa_Function option set \<Rightarrow> callgraph_Edge \<Rightarrow> ssa_CallInstruction list
     \<Rightarrow> abort + ssa_CallInstruction list" where
  "edge_body m okFuncs edge bad =
     (case Site edge of
        None \<Rightarrow> Inl (Panic ''nil pointer dereference'')
      | Some site \<Rightarrow>
          if Some (Parent site) \<in> okFuncs then Inr bad
          else (case fn_pkg (Caller edge) of
                  None \<Rightarrow> Inl (Panic ''nil pointer dereference'')
                | Some path \<Rightarrow>
                    if isInternalSQLPkg path then Inr bad
                    else (case designated_arg m site of
                            Inl p \<Rightarrow> Inl p
                          | Inr v \<Rightarrow> Inr (classify site v bad))))"

fun edge_loop ::
  "QueryMethod \<Rightarrow> ssa_Function option set \<Rightarrow> callgraph_Edge list \<Rightarrow> ssa_CallInstruction list
     \<Rightarrow> abort + ssa_CallInstruction list" where
  "edge_loop m okFuncs [] bad = Inr bad"
| "edge_loop m okFuncs (edge # edges) bad =
     (case edge_body m okFuncs edge bad of
        Inl p \<Rightarrow> Inl p
      | Inr bad' \<Rightarrow> edge_loop m okFuncs edges bad')"

text \<open>\<open>cg.Nodes[m.SSA]\<close>; no node is registered under the nil function.\<close>

definition lookup_node :: "callgraph_Graph \<Rightarrow> ssa_Function option \<Rightarrow> callgraph_Node option" where
  "lookup_node cg f = (case f of None \<Rightarrow> None | Some fn \<Rightarrow> map_of (Nodes cg) fn)"

fun method_loop ::
  "callgraph_Graph \<Rightarrow> ssa_Function option set \<Rightarrow> QueryMethod list \<Rightarrow> ssa_CallInstruction list
     \<Rightarrow> abort + ssa_CallInstruction list" where
  "method_loop cg okFuncs [] bad = Inr bad"
| "method_loop cg okFuncs (m # ms) bad =
     (case lookup_node cg (SSA m) of
        None \<Rightarrow> method_loop cg okFuncs ms bad
      | Some node \<Rightarrow>
          (case edge_loop m okFuncs (In node) bad of
             Inl p \<Rightarrow> Inl p
           | Inr bad' \<Rightarrow> method_loop cg okFuncs ms bad'))"

definition okFuncs_of :: "QueryMethod list \<Rightarrow> ssa_Function option set" where
  "okFuncs_of qms = set (map SSA qms)"

text \<open>
  \<open>FindNonConstCalls\<close> returns the graph as the call leaves it together with the list of
  unsafe call sites, or the panic that ended the scan.
\<close>

definition FindNonConstCalls ::
  "callgraph_Graph \<Rightarrow> QueryMethod list
     \<Rightarrow> callgraph_Graph \<times> (abort + ssa_CallInstruction list)" where
  "FindNonConstCalls cg qms =
     (let cg' = DeleteSyntheticNodes cg
      in (cg', method_loop cg' (okFuncs_of qms) qms []))"

section \<open>The two passes and \<open>run\<close>\<close>

text \<open>
  The error values the package creates: \<open>fmt.Errorf("found %d safesql errors", n)\<close> and
  \<open>errors.New("potentially unsafe SQL queries found")\<close>.
\<close>

datatype go_error = FoundSafesqlErrors nat | UnsafeQueriesFound

datatype token_kind = INT | FLOAT | IMAG | CHAR | STRING

text \<open>An argument expression of the syntax tree, with its position.\<close>

datatype ast_Expr = BasicLit nat token_kind string | OtherExpr nat string

fun expr_Pos :: "ast_Expr \<Rightarrow> nat" where
  "expr_Pos (BasicLit p _ _) = p"
| "expr_Pos (OtherExpr p _) = p"

text \<open>
  A call expression: the function \<open>typeutil.Callee\<close> resolves it to, when that is a
  \<open>*types.Func\<close>, and its arguments.
\<close>

record ast_CallExpr =
  call_callee :: "types_Func option"
  call_args :: "ast_Expr list"

record Diagnostic =
  diag_pos :: nat
  diag_message :: string

text \<open>
  What \<open>run\<close> is given: the path of the analysed package, the packages of the SSA program
  with their scopes (\<open>prog.AllPackages()\<close>), whether the package has a function \<open>main\<close>, the
  result of \<open>pointer.Analyze\<close> (an error or the call graph) and the call expressions of
  the package in the order of \<open>inspect.Preorder\<close>.
\<close>

record Pass =
  Pkg_Path :: string
  AllPackages :: "(string \<times> types_Object list) list"
  has_main :: bool
  pointer_Analyze :: "string + callgraph_Graph"
  call_exprs :: "ast_CallExpr list"

text \<open>The first loop of \<open>CheckSafeSqlSsa\<close>: the tracked methods of every catalog library in use.\<close>

fun collect_qms ::
  "sqlPackage list \<Rightarrow> (string \<times> types_Object list) list \<Rightarrow> QueryMethod list
     \<Rightarrow> abort + QueryMethod list" where
  "collect_qms [] pkgs qms = Inr qms"
| "collect_qms (sql # sqls) pkgs qms =
     (case List.find (\<lambda>(path, scope). path = packageName sql) pkgs of
        None \<Rightarrow> collect_qms sqls pkgs qms
      | Some (path, scope) \<Rightarrow>
          (case FindQueryMethods sql scope of
             Inl p \<Rightarrow> Inl p
           | Inr ms \<Rightarrow> collect_qms sqls pkgs (qms @ ms)))"

text \<open>
  \<open>CheckSafeSqlSsa\<close> returns its error together with the call sites whose positions it
  prints.
\<close>

definition CheckSafeSqlSsa :: "Pass \<Rightarrow> abort + (go_error option \<times> ssa_CallInstruction list)" where
  "CheckSafeSqlSsa pass =
     (case collect_qms sqlPackages (AllPackages pass) [] of
        Inl p \<Rightarrow> Inl p
      | Inr qms \<Rightarrow>
          if \<not> has_main pass then Inr (None, [])
          else (case pointer_Analyze pass of
                  Inl err2 \<Rightarrow> Inl (Exit 2)
                | Inr cg \<Rightarrow>
                    (case snd (FindNonConstCalls cg qms) of
                       Inl p \<Rightarrow> Inl p
                     | Inr bad \<Rightarrow>
                         Inr (if length bad > 0 then Some (FoundSafesqlErrors (length bad))
                              else None, bad))))"

text \<open>
  \<open>CheckSafeSqlAst\<close>.  The state of its loops is the counter \<open>nErrors\<close> and the diagnostics
  reported so far, each with the position of the argument and the message without the
  formatted argument.  \<open>call.Args[i]\<close> is bounds-checked.
\<close>

fun ast_params ::
  "sqlPackage \<Rightarrow> types_Var list \<Rightarrow> ast_Expr list \<Rightarrow> nat \<Rightarrow> int \<times> Diagnostic list
     \<Rightarrow> abort + int \<times> Diagnostic list" where
  "ast_params sql [] args i st = Inr st"
| "ast_params sql (v # vs) args i (nErrors, ds) =
     (if var_name v \<notin> paramNames sql then ast_params sql vs args (i + 1) (nErrors, ds)
      else if length args \<le> i then Inl (Panic ''index out of range'')
      else (case args ! i of
              OtherExpr p e \<Rightarrow>
                ast_params sql vs args (i + 1)
                  (nErrors + 1,
                   ds @ [\<lparr>diag_pos = p, diag_message = ''SQL query with non-static argument''\<rparr>])
            | BasicLit p kind e \<Rightarrow>
                if kind \<noteq> STRING then
                  ast_params sql vs args (i + 1)
                    (nErrors + 1,
                     ds @ [\<lparr>diag_pos = p, diag_message = ''SQL query with non-string literal''\<rparr>])
                else ast_params sql vs args (i + 1) (nErrors, ds)))"

fun ast_packages ::
  "sqlPackage list \<Rightarrow> types_Func \<Rightarrow> ast_Expr list \<Rightarrow> int \<times> Diagnostic list
     \<Rightarrow> abort + int \<times> Diagnostic list" where
  "ast_packages [] fn args st = Inr st"
| "ast_packages (sql # sqls) fn args st =
     (if func_pkg fn \<noteq> None \<and> func_pkg fn \<noteq> Some (packageName sql)
      then ast_packages sqls fn args st
      else (case ast_params sql (func_params fn) args 0 st of
              Inl p \<Rightarrow> Inl p
            | Inr st' \<Rightarrow> ast_packages sqls fn args st'))"

fun ast_calls ::
  "ast_CallExpr list \<Rightarrow> int \<times> Diagnostic list \<Rightarrow> abort + int \<times> Diagnostic list" where
  "ast_calls [] st = Inr st"
| "ast_calls (c # cs) st =
     (case call_callee c of
        None \<Rightarrow> ast_calls cs st
      | Some fn \<Rightarrow>
          (case ast_packages sqlPackages fn (call_args c) st of
             Inl p \<Rightarrow> Inl p
           | Inr st' \<Rightarrow> ast_calls cs st'))"

definition CheckSafeSqlAst :: "Pass \<Rightarrow> abort + (go_error option \<times> Diagnostic list)" where
  "CheckSafeSqlAst pass =
     (case ast_calls (call_exprs pass) (0, []) of
        Inl p \<Rightarrow> Inl p
      | Inr (nErrors, ds) \<Rightarrow>
          Inr (if nErrors \<noteq> 0 then Some UnsafeQueriesFound else None, ds))"

text \<open>The allowlist loop of \<open>run\<close>: \<open>strings.HasPrefix(path, sql.packageName)\<close>.\<close>

fun allowlisted :: "sqlPackage list \<Rightarrow> string \<Rightarrow> bool" where
  "allowlisted [] path = False"
| "allowlisted (sql # sqls) path =
     (if prefix (packageName sql) path then True else allowlisted sqls path)"

text \<open>
  The outcome of \<open>run\<close>: the returned error, the diagnostics reported through the pass and
  the call sites the call-graph pass printed.
\<close>

record run_result =
  run_err :: "go_error option"
  run_reports :: "Diagnostic list"
  run_printed :: "ssa_CallInstruction list"

definition run :: "Pass \<Rightarrow> abort + run_result" where
  "run pass =
     (if allowlisted sqlPackages (Pkg_Path pass)
      then Inr \<lparr>run_err = None, run_reports = [], run_printed = []\<rparr>
      else (case CheckSafeSqlSsa pass of
              Inl a \<Rightarrow> Inl a
            | Inr (err1, bad) \<Rightarrow>
                (case CheckSafeSqlAst pass of
                   Inl a \<Rightarrow> Inl a
                 | Inr (err2, ds) \<Rightarrow>
                     Inr \<lparr>run_err = err2, run_reports = ds, run_printed = bad\<rparr>)))"

section \<open>Example programs\<close>

text \<open>A fragment of the exported surface of \<open>database/sql\<close>.\<close>

definition fn_Exec :: ssa_Function where
  "fn_Exec = \<lparr>fn_addr = 1, fn_name = ''Exec'', fn_pkg = Some ''database/sql'',
              fn_source = True, fn_init = False\<rparr>"

definition fn_ExecContext :: ssa_Function where
  "fn_ExecContext = \<lparr>fn_addr = 2, fn_name = ''ExecContext'', fn_pkg = Some ''database/sql'',
              fn_source = True, fn_init = False\<rparr>"

definition var_query :: types_Var where
  "var_query = \<lparr>var_name = ''query'', var_type = TString\<rparr>"

definition var_args :: types_Var where
  "var_args = \<lparr>var_name = ''args'', var_type = TComposite ''[]interface{}''\<rparr>"

definition var_ctx :: types_Var where
  "var_ctx = \<lparr>var_name = ''ctx'', var_type = TNamed ''context.Context'' TInterface\<rparr>"

definition func_Exec :: types_Func where
  "func_Exec = \<lparr>func_name = ''Exec'', func_exported = True, func_pkg = Some ''database/sql'',
                func_params = [var_query, var_args], func_ssa = Some fn_Exec\<rparr>"

definition func_ExecContext :: types_Func where
  "func_ExecContext =
     \<lparr>func_name = ''ExecContext'', func_exported = True, func_pkg = Some ''database/sql'',
      func_params = [var_ctx, var_query, var_args], func_ssa = Some fn_ExecContext\<rparr>"

definition func_Close :: types_Func where
  "func_Close = \<lparr>func_name = ''Close'', func_exported = True, func_pkg = Some ''database/sql'',
                 func_params = [], func_ssa = None\<rparr>"

definition scope_sql :: "types_Object list" where
  "scope_sql = [TypeName ''DB'' True (Named [func_Close, func_Exec, func_ExecContext]),
                OtherObject ''ErrNoRows'' True]"

definition qm_Exec :: QueryMethod where
  "qm_Exec = \<lparr>Func = func_Exec, SSA = Some fn_Exec, ArgCount = 2, Param = 0\<rparr>"

definition qm_ExecContext :: QueryMethod where
  "qm_ExecContext =
     \<lparr>Func = func_ExecContext, SSA = Some fn_ExecContext, ArgCount = 3, Param = 1\<rparr>"

text \<open>The gorm method \<open>Where(query interface{}, args ...interface{})\<close>.\<close>

definition fn_Where :: ssa_Function where
  "fn_Where = \<lparr>fn_addr = 3, fn_name = ''Where'', fn_pkg = Some ''github.com/jinzhu/gorm'',
               fn_source = True, fn_init = False\<rparr>"

definition func_Where :: types_Func where
  "func_Where =
     \<lparr>func_name = ''Where'', func_exported = True, func_pkg = Some ''github.com/jinzhu/gorm'',
      func_params = [\<lparr>var_name = ''query'', var_type = TInterface\<rparr>, var_args],
      func_ssa = Some fn_Where\<rparr>"

definition qm_Where :: QueryMethod where
  "qm_Where = \<lparr>Func = func_Where, SSA = Some fn_Where, ArgCount = 2, Param = 0\<rparr>"

text \<open>
  The functions of the analysed program \<open>a_pass\<close> (a command, so its package is named \<open>main\<close>
  and its path is \<open>a_pass\<close>), and the root of its call graph.
\<close>

definition fn_root :: ssa_Function where
  "fn_root = \<lparr>fn_addr = 0, fn_name = ''<root>'', fn_pkg = None,
              fn_source = False, fn_init = False\<rparr>"

definition fn_main :: ssa_Function where
  "fn_main = \<lparr>fn_addr = 10, fn_name = ''main'', fn_pkg = Some ''a_pass'',
              fn_source = True, fn_init = False\<rparr>"

definition fn_runDbQuery :: ssa_Function where
  "fn_runDbQuery = \<lparr>fn_addr = 11, fn_name = ''runDbQuery'', fn_pkg = Some ''a_pass'',
                    fn_source = True, fn_init = False\<rparr>"

definition val_db :: ssa_Value where
  "val_db = Register ''Parameter'' (TComposite ''*sql.DB'') [100]"

definition val_nil_args :: ssa_Value where
  "val_nil_args = Const (TComposite ''[]interface{}'') ''nil''"

definition edge_root_main :: callgraph_Edge where
  "edge_root_main = \<lparr>Caller = fn_root, Site = None, Callee = fn_main\<rparr>"

definition site_main_run :: ssa_CallInstruction where
  "site_main_run = \<lparr>Pos = 90, Parent = fn_main,
                     Args = [Register ''UnOp'' (TComposite ''*sql.DB'') [90]]\<rparr>"

definition edge_main_run :: callgraph_Edge where
  "edge_main_run = \<lparr>Caller = fn_main, Site = Some site_main_run, Callee = fn_runDbQuery\<rparr>"

text \<open>
  \<open>runDbQuery\<close> calls \<open>db.Exec(sqlStmt)\<close> with a constant statement, and \<open>Exec\<close> itself
  delegates to \<open>ExecContext\<close>, passing its own parameter on.
\<close>

definition site_const :: ssa_CallInstruction where
  "site_const = \<lparr>Pos = 100, Parent = fn_runDbQuery,
                  Args = [val_db, Const TString ''create table foo'', val_nil_args]\<rparr>"

definition edge_const :: callgraph_Edge where
  "edge_const = \<lparr>Caller = fn_runDbQuery, Site = Some site_const, Callee = fn_Exec\<rparr>"

definition site_delegate :: ssa_CallInstruction where
  "site_delegate = \<lparr>Pos = 200, Parent = fn_Exec,
                     Args = [Register ''Parameter'' (TComposite ''*sql.DB'') [200],
                             Register ''Call'' (TNamed ''context.Context'' TInterface) [200],
                             Register ''Parameter'' TString [200],
                             Register ''Parameter'' (TComposite ''[]interface{}'') [200]]\<rparr>"

definition edge_delegate :: callgraph_Edge where
  "edge_delegate = \<lparr>Caller = fn_Exec, Site = Some site_delegate, Callee = fn_ExecContext\<rparr>"

definition site_formatted :: ssa_CallInstruction where
  "site_formatted = \<lparr>Pos = 105, Parent = fn_runDbQuery,
                      Args = [val_db, Register ''Call'' TString [105], val_nil_args]\<rparr>"

definition edge_formatted :: callgraph_Edge where
  "edge_formatted = \<lparr>Caller = fn_runDbQuery, Site = Some site_formatted, Callee = fn_Exec\<rparr>"

definition graph_pass :: callgraph_Graph where
  "graph_pass =
     \<lparr>Root = Some fn_root,
      Nodes = [(fn_root, \<lparr>In = [], Out = [edge_root_main]\<rparr>),
               (fn_main, \<lparr>In = [edge_root_main], Out = [edge_main_run]\<rparr>),
               (fn_runDbQuery, \<lparr>In = [edge_main_run], Out = [edge_const]\<rparr>),
               (fn_Exec, \<lparr>In = [edge_const], Out = [edge_delegate]\<rparr>),
               (fn_ExecContext, \<lparr>In = [edge_delegate], Out = []\<rparr>)]\<rparr>"

text \<open>The same program with a second call, \<open>db.Exec(fmt.Sprintf(...))\<close>, in \<open>runDbQuery\<close>.\<close>

definition graph_mixed :: callgraph_Graph where
  "graph_mixed =
     \<lparr>Root = Some fn_root,
      Nodes = [(fn_root, \<lparr>In = [], Out = [edge_root_main]\<rparr>),
               (fn_main, \<lparr>In = [edge_root_main], Out = [edge_main_run]\<rparr>),
               (fn_runDbQuery, \<lparr>In = [edge_main_run], Out = [edge_const, edge_formatted]\<rparr>),
               (fn_Exec, \<lparr>In = [edge_const, edge_formatted], Out = [edge_delegate]\<rparr>),
               (fn_ExecContext, \<lparr>In = [edge_delegate], Out = []\<rparr>)]\<rparr>"

text \<open>
  \<open>runDbQuery\<close> calls \<open>Exec\<close> through the method value \<open>f := db.Exec\<close> with a formatted
  string: the call goes to a synthetic bound-method wrapper, which calls \<open>Exec\<close>.
\<close>

definition fn_Exec_bound :: ssa_Function where
  "fn_Exec_bound = \<lparr>fn_addr = 12, fn_name = ''Exec$bound'', fn_pkg = None,
                    fn_source = False, fn_init = False\<rparr>"

definition site_bound :: ssa_CallInstruction where
  "site_bound = \<lparr>Pos = 110, Parent = fn_runDbQuery,
                  Args = [Register ''Call'' TString [110], val_nil_args]\<rparr>"

definition edge_to_bound :: callgraph_Edge where
  "edge_to_bound = \<lparr>Caller = fn_runDbQuery, Site = Some site_bound, Callee = fn_Exec_bound\<rparr>"

definition site_in_bound :: ssa_CallInstruction where
  "site_in_bound = \<lparr>Pos = 0, Parent = fn_Exec_bound,
                     Args = [Register ''FreeVar'' (TComposite ''*sql.DB'') [0],
                             Register ''Parameter'' TString [0],
                             Register ''Parameter'' (TComposite ''[]interface{}'') [0]]\<rparr>"

definition edge_bound_Exec :: callgraph_Edge where
  "edge_bound_Exec = \<lparr>Caller = fn_Exec_bound, Site = Some site_in_bound, Callee = fn_Exec\<rparr>"

definition edge_inlined :: callgraph_Edge where
  "edge_inlined = \<lparr>Caller = fn_runDbQuery, Site = Some site_bound, Callee = fn_Exec\<rparr>"

definition graph_bound :: callgraph_Graph where
  "graph_bound =
     \<lparr>Root = Some fn_root,
      Nodes = [(fn_root, \<lparr>In = [], Out = [edge_root_main]\<rparr>),
               (fn_main, \<lparr>In = [edge_root_main], Out = [edge_main_run]\<rparr>),
               (fn_runDbQuery, \<lparr>In = [edge_main_run], Out = [edge_to_bound]\<rparr>),
               (fn_Exec_bound, \<lparr>In = [edge_to_bound], Out = [edge_bound_Exec]\<rparr>),
               (fn_Exec, \<lparr>In = [edge_bound_Exec], Out = []\<rparr>)]\<rparr>"

definition graph_bound_pruned :: callgraph_Graph where
  "graph_bound_pruned =
     \<lparr>Root = Some fn_root,
      Nodes = [(fn_root, \<lparr>In = [], Out = [edge_root_main]\<rparr>),
               (fn_main, \<lparr>In = [edge_root_main], Out = [edge_main_run]\<rparr>),
               (fn_runDbQuery, \<lparr>In = [edge_main_run], Out = [edge_inlined]\<rparr>),
               (fn_Exec, \<lparr>In = [edge_inlined], Out = []\<rparr>)]\<rparr>"

text \<open>
  \<open>main\<close> calls gorm's \<open>Where\<close> three times: with a string literal, with an \<open>int\<close>
  parameter and with a formatted string, each boxed into \<open>interface{}\<close>.
\<close>

definition val_gorm_db :: ssa_Value where
  "val_gorm_db = Register ''Call'' (TComposite ''*gorm.DB'') [300, 310, 320]"

definition box_literal :: ssa_Value where
  "box_literal = MakeInterface TInterface (Const TString ''name = ?'') [300]"

definition box_int :: ssa_Value where
  "box_int = MakeInterface TInterface (Register ''Parameter'' (TBasic ''int'') [309]) [310]"

definition box_formatted :: ssa_Value where
  "box_formatted = MakeInterface TInterface (Register ''Call'' TString [319]) [320]"

definition site_box_literal :: ssa_CallInstruction where
  "site_box_literal = \<lparr>Pos = 300, Parent = fn_main,
                        Args = [val_gorm_db, box_literal, val_nil_args]\<rparr>"

definition site_box_int :: ssa_CallInstruction where
  "site_box_int = \<lparr>Pos = 310, Parent = fn_main, Args = [val_gorm_db, box_int, val_nil_args]\<rparr>"

definition site_box_formatted :: ssa_CallInstruction where
  "site_box_formatted = \<lparr>Pos = 320, Parent = fn_main,
                          Args = [val_gorm_db, box_formatted, val_nil_args]\<rparr>"

definition edge_box_literal :: callgraph_Edge where
  "edge_box_literal = \<lparr>Caller = fn_main, Site = Some site_box_literal, Callee = fn_Where\<rparr>"

definition edge_box_int :: callgraph_Edge where
  "edge_box_int = \<lparr>Caller = fn_main, Site = Some site_box_int, Callee = fn_Where\<rparr>"

definition edge_box_formatted :: callgraph_Edge where
  "edge_box_formatted = \<lparr>Caller = fn_main, Site = Some site_box_formatted, Callee = fn_Where\<rparr>"

definition graph_boxed :: callgraph_Graph where
  "graph_boxed =
     \<lparr>Root = Some fn_root,
      Nodes = [(fn_root, \<lparr>In = [], Out = [edge_root_main]\<rparr>),
               (fn_main, \<lparr>In = [edge_root_main],
                          Out = [edge_box_literal, edge_box_int, edge_box_formatted]\<rparr>),
               (fn_Where, \<lparr>In = [edge_box_literal, edge_box_int, edge_box_formatted],
                           Out = []\<rparr>)]\<rparr>"

text \<open>
  Two calls of \<open>ExecContext\<close>, whose query is its second parameter: the static call
  \<open>db.ExecContext(ctx, "select 1")\<close>, receiver first, and the call \<open>g(ctx, q)\<close> through the
  method value \<open>g := db.ExecContext\<close>, without receiver.
\<close>

definition val_ctx :: ssa_Value where
  "val_ctx = Register ''UnOp'' (TNamed ''context.Context'' TInterface) [130, 140]"

definition site_ctx_const :: ssa_CallInstruction where
  "site_ctx_const = \<lparr>Pos = 130, Parent = fn_runDbQuery,
                      Args = [val_db, val_ctx, Const TString ''select 1'', val_nil_args]\<rparr>"

definition edge_ctx_const :: callgraph_Edge where
  "edge_ctx_const =
     \<lparr>Caller = fn_runDbQuery, Site = Some site_ctx_const, Callee = fn_ExecContext\<rparr>"

definition site_ctx_value :: ssa_CallInstruction where
  "site_ctx_value = \<lparr>Pos = 140, Parent = fn_runDbQuery,
                      Args = [val_ctx, Register ''Call'' TString [140], val_nil_args]\<rparr>"

definition edge_ctx_value :: callgraph_Edge where
  "edge_ctx_value =
     \<lparr>Caller = fn_runDbQuery, Site = Some site_ctx_value, Callee = fn_ExecContext\<rparr>"

text \<open>A call of \<open>Exec\<close> whose argument list fits neither shape of the signature.\<close>

definition site_short :: ssa_CallInstruction where
  "site_short = \<lparr>Pos = 120, Parent = fn_runDbQuery, Args = [Register ''Call'' TString [120]]\<rparr>"

definition edge_short :: callgraph_Edge where
  "edge_short = \<lparr>Caller = fn_runDbQuery, Site = Some site_short, Callee = fn_Exec\<rparr>"

definition graph_short :: callgraph_Graph where
  "graph_short =
     \<lparr>Root = Some fn_root,
      Nodes = [(fn_root, \<lparr>In = [], Out = [edge_root_main]\<rparr>),
               (fn_main, \<lparr>In = [edge_root_main], Out = [edge_main_run]\<rparr>),
               (fn_runDbQuery, \<lparr>In = [edge_main_run], Out = [edge_short]\<rparr>),
               (fn_Exec, \<lparr>In = [edge_short], Out = []\<rparr>)]\<rparr>"

text \<open>
  Two analysed packages that are exempt: \<open>pass_sql\<close> is \<open>database/sql\<close> itself and
  \<open>pass_driver\<close> is \<open>database/sql/driver\<close>; both contain a call that passes a variable as
  the query.
\<close>

definition call_delegate :: ast_CallExpr where
  "call_delegate =
     \<lparr>call_callee = Some func_ExecContext,
      call_args = [OtherExpr 201 ''ctx'', OtherExpr 202 ''query'', OtherExpr 203 ''args'']\<rparr>"

definition pass_sql :: Pass where
  "pass_sql = \<lparr>Pkg_Path = ''database/sql'', AllPackages = [(''database/sql'', scope_sql)],
               has_main = False, pointer_Analyze = Inl ''no main'',
               call_exprs = [call_delegate]\<rparr>"

definition pass_driver :: Pass where
  "pass_driver = \<lparr>Pkg_Path = ''database/sql/driver'',
                  AllPackages = [(''database/sql'', scope_sql)],
                  has_main = False, pointer_Analyze = Inl ''no main'',
                  call_exprs = [call_delegate]\<rparr>"

definition func_runDbQuery :: types_Func where
  "func_runDbQuery =
     \<lparr>func_name = ''runDbQuery'', func_exported = False, func_pkg = Some ''a_pass'',
      func_params = [\<lparr>var_name = ''db'', var_type = TComposite ''*sql.DB''\<rparr>],
      func_ssa = Some fn_runDbQuery\<rparr>"

text \<open>
  The package \<open>a_pass\<close> as the analysis driver presents it.  The driver builds SSA from
  syntax for the analysed package only, so the functions of the imported \<open>database/sql\<close>
  are synthetic.  The call graph is the one the comment in \<open>CheckSafeSqlSsa\<close> reports:
  \<open>main\<close> calls \<open>runDbQuery\<close>, and \<open>runDbQuery\<close> has no outgoing edge.  The syntax tree has
  the calls \<open>db.Exec(sqlStmt)\<close>, \<open>log.Printf("%q: %s\n", err, sqlStmt)\<close>, \<open>runDbQuery(db)\<close>
  and \<open>log.Printf("holy moley\n")\<close>.  \<open>AllPackages\<close> lists the analysed package and
  \<open>database/sql\<close>; the other imports have no catalog path and play no role.
\<close>

definition fn_Exec_imported :: ssa_Function where
  "fn_Exec_imported = fn_Exec\<lparr>fn_source := False\<rparr>"

definition fn_ExecContext_imported :: ssa_Function where
  "fn_ExecContext_imported = fn_ExecContext\<lparr>fn_source := False\<rparr>"

definition func_Exec_imported :: types_Func where
  "func_Exec_imported = func_Exec\<lparr>func_ssa := Some fn_Exec_imported\<rparr>"

definition func_ExecContext_imported :: types_Func where
  "func_ExecContext_imported = func_ExecContext\<lparr>func_ssa := Some fn_ExecContext_imported\<rparr>"

definition scope_sql_imported :: "types_Object list" where
  "scope_sql_imported =
     [TypeName ''DB'' True (Named [func_Close, func_Exec_imported, func_ExecContext_imported]),
      OtherObject ''ErrNoRows'' True]"

definition func_log_Printf :: types_Func where
  "func_log_Printf =
     \<lparr>func_name = ''Printf'', func_exported = True, func_pkg = Some ''log'',
      func_params = [\<lparr>var_name = ''format'', var_type = TString\<rparr>,
                     \<lparr>var_name = ''v'', var_type = TComposite ''[]interface{}''\<rparr>],
      func_ssa = None\<rparr>"

definition graph_a_pass :: callgraph_Graph where
  "graph_a_pass =
     \<lparr>Root = Some fn_root,
      Nodes = [(fn_root, \<lparr>In = [], Out = [edge_root_main]\<rparr>),
               (fn_main, \<lparr>In = [edge_root_main], Out = [edge_main_run]\<rparr>),
               (fn_runDbQuery, \<lparr>In = [edge_main_run], Out = []\<rparr>)]\<rparr>"

definition pass_a_pass :: Pass where
  "pass_a_pass =
     \<lparr>Pkg_Path = ''a_pass'',
      AllPackages =
        [(''a_pass'', [OtherObject ''ctx'' False, OtherObject ''db'' False,
                       OtherObject ''main'' False, OtherObject ''runDbQuery'' False]),
         (''database/sql'', scope_sql_imported)],
      has_main = True, pointer_Analyze = Inr graph_a_pass,
      call_exprs =
        [\<lparr>call_callee = Some func_Exec_imported, call_args = [OtherExpr 19 ''sqlStmt'']\<rparr>,
         \<lparr>call_callee = Some func_log_Printf,
            call_args = [BasicLit 20 STRING ''%q: %s'', OtherExpr 20 ''err'',
                         OtherExpr 20 ''sqlStmt'']\<rparr>,
         \<lparr>call_callee = Some func_runDbQuery, call_args = [OtherExpr 26 ''db'']\<rparr>,
         \<lparr>call_callee = Some func_log_Printf,
            call_args = [BasicLit 28 STRING ''holy moley'']\<rparr>]\<rparr>"

definition no_result :: run_result where
  "no_result = \<lparr>run_err = None, run_reports = [], run_printed = []\<rparr>"

section \<open>Derived notions\<close>

text \<open>The incoming edges the engine scans for the method \<open>m\<close>.\<close>

definition in_edges :: "callgraph_Graph \<Rightarrow> QueryMethod \<Rightarrow> callgraph_Edge list" where
  "in_edges cg m = (case lookup_node cg (SSA m) of None \<Rightarrow> [] | Some node \<Rightarrow> In node)"

text \<open>What one edge adds to \<open>bad\<close>, and whether the loop body aborts on it.\<close>

definition findings ::
  "QueryMethod \<Rightarrow> ssa_Function option set \<Rightarrow> callgraph_Edge \<Rightarrow> ssa_CallInstruction list" where
  "findings m ok e = (case edge_body m ok e [] of Inl p \<Rightarrow> [] | Inr xs \<Rightarrow> xs)"

definition aborts :: "QueryMethod \<Rightarrow> ssa_Function option set \<Rightarrow> callgraph_Edge \<Rightarrow> bool" where
  "aborts m ok e = isl (edge_body m ok e [])"

text \<open>The argument the engine inspects at the call site \<open>s\<close> of \<open>m\<close> is an SSA constant.\<close>

definition constant_at :: "QueryMethod \<Rightarrow> ssa_CallInstruction \<Rightarrow> bool" where
  "constant_at m s = (case designated_arg m s of Inl p \<Rightarrow> False | Inr v \<Rightarrow> is_Const v)"

text \<open>
  A graph from which the synthetic nodes have been removed: every function registered in
  \<open>Nodes\<close> is the root, a package initializer or a function from source code.
\<close>

definition no_synthetic :: "callgraph_Graph \<Rightarrow> bool" where
  "no_synthetic g = list_all (keep_node (Root g)) (map fst (Nodes g))"

text \<open>
  An edge the engine does not skip: it has a call site, the function containing the site
  is not a tracked method's function, and the caller's package is not a catalog library.
\<close>

definition not_skipped :: "ssa_Function option set \<Rightarrow> callgraph_Edge \<Rightarrow> ssa_CallInstruction \<Rightarrow> bool" where
  "not_skipped ok e s =
     (Site e = Some s \<and> Some (Parent s) \<notin> ok \<and>
      (case fn_pkg (Caller e) of None \<Rightarrow> False | Some path \<Rightarrow> \<not> isInternalSQLPkg path))"

section \<open>Properties\<close>

subsection \<open>The resolver\<close>

definition index_ok :: "QueryMethod \<Rightarrow> bool" where
  "index_ok m = (0 \<le> Param m \<and> Param m < ArgCount m)"

lemma FuncHasQuery_from_bounds:
  "FuncHasQuery_from sp vs i = (n, True) \<Longrightarrow> i \<le> n \<and> n < i + int (length vs)"
  by (induction vs arbitrary: i) (fastforce split: if_splits)+

lemma FuncHasQuery_bounds:
  "FuncHasQuery sp vs = (n, True) \<Longrightarrow> 0 \<le> n \<and> n < int (length vs)"
  using FuncHasQuery_from_bounds [of sp vs 0 n] by (simp add: FuncHasQuery_def)

lemma FindQueryMethods_methods_index:
  "list_all index_ok methods \<Longrightarrow> list_all index_ok (FindQueryMethods_methods sp ms methods)"
proof (induction ms arbitrary: methods)
  case Nil
  then show ?case by simp
next
  case (Cons m ms)
  show ?case
  proof (cases "func_exported m")
    case False
    then show ?thesis using Cons by simp
  next
    case True
    obtain num ok where h: "FuncHasQuery sp (func_params m) = (num, ok)"
      by (cases "FuncHasQuery sp (func_params m)")
    show ?thesis
    proof (cases ok)
      case False
      then show ?thesis using Cons True h by simp
    next
      case ok: True
      have b: "0 \<le> num \<and> num < int (length (func_params m))"
        using FuncHasQuery_bounds h ok by simp
      have "index_ok \<lparr>Func = m, SSA = func_ssa m,
                       ArgCount = int (length (func_params m)), Param = num\<rparr>"
        using b by (simp add: index_ok_def)
      then have "list_all index_ok
              (methods @ [\<lparr>Func = m, SSA = func_ssa m,
                           ArgCount = int (length (func_params m)), Param = num\<rparr>])"
        using Cons.prems by simp
      from Cons.IH [OF this] show ?thesis using True h ok by simp
    qed
  qed
qed

lemma FindQueryMethods_names_index:
  "list_all index_ok methods \<Longrightarrow> FindQueryMethods_names sp os methods = Inr res
     \<Longrightarrow> list_all index_ok res"
proof (induction sp os methods rule: FindQueryMethods_names.induct)
  case (1 sp methods)
  then show ?case by simp
next
  case (2 sp name exported os methods)
  then show ?case by simp
next
  case (3 sp name exported t os methods)
  then show ?case
    by (auto split: if_splits types_Type.splits intro: FindQueryMethods_methods_index)
qed

text \<open>
  Claim C7.  Whatever the catalog entry and the scope of the library, every method the
  resolver \<open>FindQueryMethods\<close> returns has its recorded index inside its parameter list:
  \<open>0 \<le> Param < ArgCount\<close>.
\<close>

theorem FindQueryMethods_index_in_range:
  assumes "FindQueryMethods sp scope = Inr methods" and "m \<in> set methods"
  shows "0 \<le> Param m \<and> Param m < ArgCount m"
proof -
  have "list_all index_ok methods"
    using assms(1) FindQueryMethods_names_index [of "[]" sp scope methods]
    by (simp add: FindQueryMethods_def)
  with assms(2) show ?thesis by (simp add: list_all_iff index_ok_def)
qed

lemma FindQueryMethods_scope_sql:
  "FindQueryMethods (hd sqlPackages) scope_sql = Inr [qm_Exec, qm_ExecContext]"
  by (simp add: FindQueryMethods_def FuncHasQuery_def sqlPackages_def scope_sql_def
      func_Close_def func_Exec_def func_ExecContext_def qm_Exec_def qm_ExecContext_def
      var_query_def var_args_def var_ctx_def)

theorem FindQueryMethods_index_in_range_witness:
  "FindQueryMethods (hd sqlPackages) scope_sql = Inr [qm_Exec, qm_ExecContext]
   \<and> qm_ExecContext \<in> set [qm_Exec, qm_ExecContext]
   \<and> 0 \<le> Param qm_ExecContext \<and> Param qm_ExecContext < ArgCount qm_ExecContext
   \<and> Param qm_ExecContext = 1"
proof -
  have mem: "qm_ExecContext \<in> set [qm_Exec, qm_ExecContext]" by simp
  from FindQueryMethods_index_in_range [OF FindQueryMethods_scope_sql mem]
  show ?thesis using FindQueryMethods_scope_sql by (simp add: qm_ExecContext_def)
qed

subsection \<open>The loops of the engine\<close>

text \<open>
  The body of the edge loop only appends to \<open>bad\<close>, so the result of the scan is the
  concatenation of what every scanned edge adds, and the scan returns exactly when no
  edge body aborts.
\<close>

lemma classify_append: "classify s v bad = bad @ classify s v []"
  by (cases v) (simp_all add: classify_def)

lemma edge_body_append:
  "edge_body m ok e bad =
     (case edge_body m ok e [] of Inl p \<Rightarrow> Inl p | Inr xs \<Rightarrow> Inr (bad @ xs))"
  using classify_append [of _ _ bad]
  by (simp add: edge_body_def split: option.splits sum.splits)

lemma edge_body_cases:
  "edge_body m ok e bad = (if aborts m ok e then Inl (projl (edge_body m ok e []))
                           else Inr (bad @ findings m ok e))"
  by (subst edge_body_append) (simp add: aborts_def findings_def split: sum.splits)

lemma edge_loop_Inr:
  "edge_loop m ok es bad = Inr bad' \<longleftrightarrow>
     (\<forall>e\<in>set es. \<not> aborts m ok e) \<and> bad' = bad @ concat (map (findings m ok) es)"
proof (induction es arbitrary: bad)
  case Nil
  then show ?case by auto
next
  case (Cons e es)
  show ?case
  proof (cases "aborts m ok e")
    case True
    then show ?thesis by (simp add: edge_body_cases [of m ok e bad])
  next
    case False
    then show ?thesis using Cons [of "bad @ findings m ok e"]
      by (simp add: edge_body_cases [of m ok e bad])
  qed
qed

lemma method_loop_Inr:
  "method_loop cg ok qms bad = Inr bad' \<longleftrightarrow>
     (\<forall>m\<in>set qms. \<forall>e\<in>set (in_edges cg m). \<not> aborts m ok e) \<and>
     bad' = bad @ concat (map (\<lambda>m. concat (map (findings m ok) (in_edges cg m))) qms)"
proof (induction qms arbitrary: bad)
  case Nil
  then show ?case by auto
next
  case (Cons m ms)
  show ?case
  proof (cases "lookup_node cg (SSA m)")
    case None
    then have ie: "in_edges cg m = []" by (simp add: in_edges_def)
    show ?thesis using None Cons [of bad] by (simp add: ie)
  next
    case (Some node)
    then have ie: "in_edges cg m = In node" by (simp add: in_edges_def)
    show ?thesis
    proof (cases "edge_loop m ok (In node) bad")
      case (Inl p)
      then have "\<exists>e\<in>set (In node). aborts m ok e"
        using edge_loop_Inr [of m ok "In node" bad] by auto
      then show ?thesis using Some Inl by (auto simp: ie)
    next
      case (Inr b)
      then have h: "\<forall>e\<in>set (In node). \<not> aborts m ok e"
        "b = bad @ concat (map (findings m ok) (In node))"
        using edge_loop_Inr [of m ok "In node" bad b] by auto
      then show ?thesis using Some Inr Cons [of b] by (simp add: ie)
    qed
  qed
qed

lemma FindNonConstCalls_Inr:
  "FindNonConstCalls cg qms = (cg', Inr bad) \<longleftrightarrow>
     cg' = DeleteSyntheticNodes cg \<and>
     (\<forall>m\<in>set qms. \<forall>e\<in>set (in_edges cg' m). \<not> aborts m (okFuncs_of qms) e) \<and>
     bad = concat (map (\<lambda>m. concat (map (findings m (okFuncs_of qms)) (in_edges cg' m))) qms)"
  using method_loop_Inr [of "DeleteSyntheticNodes cg" "okFuncs_of qms" qms "[]" bad]
  by (auto simp: FindNonConstCalls_def Let_def)

lemma reported_site:
  assumes "FindNonConstCalls cg qms = (cg', Inr bad)"
  shows "s \<in> set bad \<longleftrightarrow>
           (\<exists>m\<in>set qms. \<exists>e\<in>set (in_edges cg' m). s \<in> set (findings m (okFuncs_of qms) e))"
  using assms by (auto simp: FindNonConstCalls_Inr)

lemma aborting_edge:
  assumes "m \<in> set qms" and "e \<in> set (in_edges (DeleteSyntheticNodes cg) m)"
    and "aborts m (okFuncs_of qms) e"
  shows "\<exists>a. snd (FindNonConstCalls cg qms) = Inl a"
proof (cases "snd (FindNonConstCalls cg qms)")
  case (Inl a)
  then show ?thesis by simp
next
  case (Inr bad)
  then have "FindNonConstCalls cg qms = (DeleteSyntheticNodes cg, Inr bad)"
    by (simp add: FindNonConstCalls_def Let_def)
  then show ?thesis using assms by (auto simp: FindNonConstCalls_Inr)
qed

lemma edge_body_not_skipped:
  "not_skipped ok e s \<Longrightarrow>
     edge_body m ok e bad =
       (case designated_arg m s of Inl p \<Rightarrow> Inl p | Inr v \<Rightarrow> Inr (classify s v bad))"
  by (auto simp: not_skipped_def edge_body_def split: option.splits)

lemma classify_nil: "classify s v [] = [] \<or> classify s v [] = [s]"
  by (cases v) (simp_all add: classify_def)

lemma findings_iff:
  "x \<in> set (findings m ok e) \<longleftrightarrow>
     not_skipped ok e x \<and> (\<exists>v. designated_arg m x = Inr v \<and> classify x v [] = [x])"
proof (cases "Site e")
  case None
  then show ?thesis by (simp add: findings_def edge_body_def not_skipped_def)
next
  case (Some s)
  show ?thesis
  proof (cases "not_skipped ok e s")
    case True
    then show ?thesis using Some classify_nil [of s]
      by (auto simp: findings_def edge_body_not_skipped not_skipped_def split: sum.splits)
        (metis empty_iff empty_set set_ConsD)+
  next
    case False
    then show ?thesis using Some
      by (auto simp: findings_def edge_body_def not_skipped_def split: option.splits)
  qed
qed


lemma classify_Const: "is_Const v \<Longrightarrow> classify s v bad = bad"
  by (simp add: classify_def)

lemma classify_boxed:
  "IsInterface t \<Longrightarrow>
     classify s (MakeInterface t x rs) bad =
       (if Referrers x = None \<or> Type_of x \<noteq> TString then bad else bad @ [s])"
  by (simp add: classify_def)

subsection \<open>Pruning\<close>

text \<open>
  \<open>DeleteSyntheticNodes\<close> never changes the set of registered functions except by
  deleting the synthetic ones; on a graph without synthetic nodes it changes nothing.
\<close>

lemma keys_update_node: "map fst (update_node f h ns) = map fst ns"
  by (induction ns) (auto simp: update_node_def)

lemma keys_AddEdge: "map fst (AddEdge c s d ns) = map fst ns"
  by (simp add: AddEdge_def Let_def keys_update_node)

lemma keys_fold_removeOutEdge: "map fst (fold removeOutEdge es ns) = map fst ns"
  by (induction es arbitrary: ns) (simp_all add: removeOutEdge_def keys_update_node)

lemma keys_fold_removeInEdge: "map fst (fold removeInEdge es ns) = map fst ns"
  by (induction es arbitrary: ns) (simp_all add: removeInEdge_def keys_update_node)

lemma keys_filter_neq: "map fst (filter (\<lambda>(k, n). k \<noteq> f) ns) = filter (\<lambda>k. k \<noteq> f) (map fst ns)"
  by (induction ns) auto

lemma keys_DeleteNode: "map fst (DeleteNode f ns) = filter (\<lambda>k. k \<noteq> f) (map fst ns)"
  by (simp add: DeleteNode_def Let_def keys_filter_neq keys_update_node
      keys_fold_removeOutEdge keys_fold_removeInEdge)

lemma keys_inline_outs: "map fst (fst (inline_outs eIn outs st)) = map fst (fst st)"
  by (induction eIn outs st rule: inline_outs.induct) (simp_all add: Let_def keys_AddEdge)

lemma keys_inline_ins: "map fst (fst (inline_ins f ins st)) = map fst (fst st)"
  by (induction f ins st rule: inline_ins.induct) (simp_all add: keys_inline_outs)

lemma keys_prune_loop:
  "map fst (fst (prune_loop root fs st))
     = filter (\<lambda>k. keep_node root k \<or> k \<notin> set fs) (map fst (fst st))"
proof (induction root fs st rule: prune_loop.induct)
  case (1 root st)
  then show ?case by simp
next
  case (2 root f fs ns edges)
  show ?case
  proof (cases "keep_node root f")
    case True
    have "filter (\<lambda>k. keep_node root k \<or> k \<notin> set fs) (map fst ns)
            = filter (\<lambda>k. keep_node root k \<or> k \<notin> set (f # fs)) (map fst ns)"
      using True by (intro filter_cong) auto
    then show ?thesis using True 2 by simp
  next
    case False
    obtain ns' edges' where h: "inline_ins f (node_In ns f) (ns, edges) = (ns', edges')"
      by (cases "inline_ins f (node_In ns f) (ns, edges)")
    have k: "map fst ns' = map fst ns"
      using keys_inline_ins [of f "node_In ns f" "(ns, edges)"] h by simp
    have "map fst (fst (prune_loop root fs (DeleteNode f ns', edges')))
            = filter (\<lambda>k. keep_node root k \<or> k \<notin> set fs) (map fst (DeleteNode f ns'))"
      using 2(2) [OF False h [symmetric]] by simp
    also have "\<dots> = filter (\<lambda>k. keep_node root k \<or> k \<notin> set (f # fs)) (map fst ns)"
      using False by (simp add: keys_DeleteNode k) (intro filter_cong, auto)
    finally show ?thesis using False h by simp
  qed
qed

lemma prune_loop_kept: "list_all (keep_node root) fs \<Longrightarrow> prune_loop root fs st = st"
  by (induction root fs st rule: prune_loop.induct) simp_all

lemma DeleteSyntheticNodes_id: "no_synthetic g \<Longrightarrow> DeleteSyntheticNodes g = g"
  by (simp add: DeleteSyntheticNodes_def no_synthetic_def prune_loop_kept)

lemma DeleteSyntheticNodes_no_synthetic: "no_synthetic (DeleteSyntheticNodes g)"
  by (auto simp: DeleteSyntheticNodes_def no_synthetic_def keys_prune_loop list_all_iff)

lemma DeleteSyntheticNodes_idem:
  "DeleteSyntheticNodes (DeleteSyntheticNodes g) = DeleteSyntheticNodes g"
  by (rule DeleteSyntheticNodes_id) (rule DeleteSyntheticNodes_no_synthetic)

text \<open>
  A tracked method whose function is synthetic has no node left after the pruning, so the
  engine scans no edge for it.  This is the situation of every catalog method under the
  analysis driver.
\<close>

lemma synthetic_sink_unscanned:
  assumes "SSA m = Some f" and "\<not> keep_node (Root cg) f"
  shows "in_edges (DeleteSyntheticNodes cg) m = []"
proof -
  have "f \<notin> set (map fst (Nodes (DeleteSyntheticNodes cg)))"
    using assms(2) by (simp add: DeleteSyntheticNodes_def keys_prune_loop)
  then have "map_of (Nodes (DeleteSyntheticNodes cg)) f = None"
    by (simp add: map_of_eq_None_iff)
  then show ?thesis using assms(1) by (simp add: in_edges_def lookup_node_def)
qed

subsection \<open>The example programs, evaluated\<close>

lemma run_graph_pass:
  "FindNonConstCalls graph_pass [qm_Exec, qm_ExecContext] = (graph_pass, Inr [])"
  by code_simp

lemma run_graph_mixed:
  "FindNonConstCalls graph_mixed [qm_Exec, qm_ExecContext] = (graph_mixed, Inr [site_formatted])"
  by code_simp

lemma run_graph_bound:
  "FindNonConstCalls graph_bound [qm_Exec] = (graph_bound_pruned, Inr [site_bound])"
  by code_simp

lemma run_graph_boxed:
  "FindNonConstCalls graph_boxed [qm_Where] = (graph_boxed, Inr [site_box_formatted])"
  by code_simp

lemma run_graph_short:
  "snd (FindNonConstCalls graph_short [qm_Exec]) = Inl (Panic ''arg count mismatch'')"
  by code_simp

lemma graph_bound_changes: "fst (FindNonConstCalls graph_bound [qm_Exec]) \<noteq> graph_bound"
  by code_simp

lemma ssa_pass_a_pass: "CheckSafeSqlSsa pass_a_pass = Inr (None, [])"
  by code_simp

lemma ast_pass_a_pass:
  "CheckSafeSqlAst pass_a_pass =
     Inr (Some UnsafeQueriesFound,
          [\<lparr>diag_pos = 19, diag_message = ''SQL query with non-static argument''\<rparr>])"
  by code_simp

lemma ast_pass_sql: "CheckSafeSqlAst pass_sql = Inr (Some UnsafeQueriesFound,
    [\<lparr>diag_pos = 202, diag_message = ''SQL query with non-static argument''\<rparr>])"
  by code_simp

lemma ast_pass_driver: "CheckSafeSqlAst pass_driver = Inr (Some UnsafeQueriesFound,
    [\<lparr>diag_pos = 202, diag_message = ''SQL query with non-static argument''\<rparr>])"
  by code_simp

subsection \<open>Classification of the designated argument\<close>

text \<open>
  Claim C1, as the code has it.  Take an edge the engine does not skip, into a tracked
  method \<open>m\<close>, whose designated argument is a value \<open>x\<close> boxed into an interface type.
  The edge adds no finding exactly when \<open>x\<close> has no referrers list (\<open>Referrers()\<close> is nil,
  as for a constant) or the static type of \<open>x\<close> is not \<open>string\<close>; otherwise, that is when
  \<open>x\<close> is a \<open>string\<close> with a referrers list, the call site is appended, and it is then in
  the list \<open>FindNonConstCalls\<close> returns.
\<close>

theorem boxed_argument_classification:
  assumes "not_skipped (okFuncs_of qms) e s"
    and "designated_arg m s = Inr (MakeInterface t x rs)" and "IsInterface t"
  shows "edge_body m (okFuncs_of qms) e bad0 =
           Inr (if Referrers x = None \<or> Type_of x \<noteq> TString then bad0 else bad0 @ [s])
       \<and> (m \<in> set qms \<and> FindNonConstCalls cg qms = (cg', Inr bad) \<and> e \<in> set (in_edges cg' m)
            \<and> Referrers x \<noteq> None \<and> Type_of x = TString \<longrightarrow> s \<in> set bad)"
proof (intro conjI impI)
  show "edge_body m (okFuncs_of qms) e bad0 =
           Inr (if Referrers x = None \<or> Type_of x \<noteq> TString then bad0 else bad0 @ [s])"
    using assms(2,3) by (simp add: edge_body_not_skipped [OF assms(1)] classify_boxed)
next
  assume h: "m \<in> set qms \<and> FindNonConstCalls cg qms = (cg', Inr bad) \<and> e \<in> set (in_edges cg' m)
            \<and> Referrers x \<noteq> None \<and> Type_of x = TString"
  have "classify s (MakeInterface t x rs) [] = [s]"
    using h assms(3) by (simp add: classify_boxed)
  then have "s \<in> set (findings m (okFuncs_of qms) e)"
    using assms(1,2) by (simp add: findings_iff)
  then show "s \<in> set bad"
    using h reported_site [of cg qms cg' bad s] by blast
qed


theorem boxed_argument_classification_witness:
  "not_skipped (okFuncs_of [qm_Where]) edge_box_formatted site_box_formatted
   \<and> designated_arg qm_Where site_box_formatted
       = Inr (MakeInterface TInterface (Register ''Call'' TString [319]) [320])
   \<and> IsInterface TInterface
   \<and> Referrers (Register ''Call'' TString [319]) \<noteq> None
   \<and> Type_of (Register ''Call'' TString [319]) = TString
   \<and> edge_body qm_Where (okFuncs_of [qm_Where]) edge_box_formatted [] = Inr [site_box_formatted]
   \<and> FindNonConstCalls graph_boxed [qm_Where] = (graph_boxed, Inr [site_box_formatted])
   \<and> edge_box_formatted \<in> set (in_edges graph_boxed qm_Where)
   \<and> site_box_formatted \<in> set [site_box_formatted]
   \<and> not_skipped (okFuncs_of [qm_Where]) edge_box_literal site_box_literal
   \<and> designated_arg qm_Where site_box_literal
       = Inr (MakeInterface TInterface (Const TString ''name = ?'') [300])
   \<and> Referrers (Const TString ''name = ?'') = None
   \<and> edge_body qm_Where (okFuncs_of [qm_Where]) edge_box_literal [] = Inr []"
proof -
  have a1: "not_skipped (okFuncs_of [qm_Where]) edge_box_formatted site_box_formatted"
    by code_simp
  have a2: "designated_arg qm_Where site_box_formatted
              = Inr (MakeInterface TInterface (Register ''Call'' TString [319]) [320])"
    by code_simp
  have a3: "IsInterface TInterface" by simp
  have a4: "qm_Where \<in> set [qm_Where]" by simp
  have a5: "edge_box_formatted \<in> set (in_edges graph_boxed qm_Where)" by code_simp
  have b1: "not_skipped (okFuncs_of [qm_Where]) edge_box_literal site_box_literal"
    by code_simp
  have b2: "designated_arg qm_Where site_box_literal
              = Inr (MakeInterface TInterface (Const TString ''name = ?'') [300])"
    by code_simp
  from boxed_argument_classification [OF a1 a2 a3, of "[]" graph_boxed graph_boxed
         "[site_box_formatted]"] a4 a5 run_graph_boxed
  have A: "edge_body qm_Where (okFuncs_of [qm_Where]) edge_box_formatted []
             = Inr [site_box_formatted]
           \<and> site_box_formatted \<in> set [site_box_formatted]" by simp
  from boxed_argument_classification [OF b1 b2 a3, of "[]"]
  have B: "edge_body qm_Where (okFuncs_of [qm_Where]) edge_box_literal [] = Inr []" by simp
  show ?thesis using a1 a2 a5 b1 b2 A B run_graph_boxed by simp
qed

text \<open>
  The claim C1 as the specification words it asks for a finding in every boxed case other
  than a string without referrers.  In \<open>graph_boxed\<close> the call \<open>Where(id)\<close> boxes an \<open>int\<close>
  parameter, which has referrers and is not a string; the engine does not skip the edge,
  and yet the call site is not among the findings.
\<close>

theorem boxed_non_string_counterexample:
  "not_skipped (okFuncs_of [qm_Where]) edge_box_int site_box_int
   \<and> edge_box_int \<in> set (in_edges graph_boxed qm_Where)
   \<and> designated_arg qm_Where site_box_int
       = Inr (MakeInterface TInterface (Register ''Parameter'' (TBasic ''int'') [309]) [310])
   \<and> IsInterface TInterface
   \<and> Type_of (Register ''Parameter'' (TBasic ''int'') [309]) \<noteq> TString
   \<and> Referrers (Register ''Parameter'' (TBasic ''int'') [309]) \<noteq> None
   \<and> FindNonConstCalls graph_boxed [qm_Where] = (graph_boxed, Inr [site_box_formatted])
   \<and> site_box_int \<notin> set [site_box_formatted]"
  by code_simp

text \<open>
  Claim C2.  A call site whose designated argument is an SSA constant is never in the list
  \<open>FindNonConstCalls\<close> returns.  First conjunct: an edge with such a call site leaves \<open>bad\<close>
  as it was.  Second conjunct: when the designated argument of the call site \<open>s\<close> is
  constant on every scanned edge that carries \<open>s\<close>, the returned list does not contain \<open>s\<close>.
\<close>

theorem constant_argument_not_reported:
  "(Site e = Some s \<and> constant_at m s \<and> edge_body m ok e bad0 = Inr bad1 \<longrightarrow> bad1 = bad0)
   \<and> (FindNonConstCalls cg qms = (cg', Inr bad)
        \<and> (\<forall>m\<in>set qms. \<forall>e\<in>set (in_edges cg' m). Site e = Some s \<longrightarrow> constant_at m s)
      \<longrightarrow> s \<notin> set bad)"
proof (intro conjI impI)
  assume h: "Site e = Some s \<and> constant_at m s \<and> edge_body m ok e bad0 = Inr bad1"
  then show "bad1 = bad0"
    by (auto simp: edge_body_def constant_at_def classify_Const
        split: option.splits if_splits sum.splits)
next
  assume h: "FindNonConstCalls cg qms = (cg', Inr bad)
        \<and> (\<forall>m\<in>set qms. \<forall>e\<in>set (in_edges cg' m). Site e = Some s \<longrightarrow> constant_at m s)"
  show "s \<notin> set bad"
  proof
    assume "s \<in> set bad"
    then obtain m e where me: "m \<in> set qms" "e \<in> set (in_edges cg' m)"
      "s \<in> set (findings m (okFuncs_of qms) e)"
      using h reported_site [of cg qms cg' bad s] by auto
    from me(3) obtain v where v: "Site e = Some s" "designated_arg m s = Inr v"
      "classify s v [] = [s]"
      by (auto simp: findings_iff not_skipped_def)
    from h me v(1) have "constant_at m s" by blast
    then have "is_Const v" using v(2) by (simp add: constant_at_def)
    then show False using v(3) by (simp add: classify_Const)
  qed
qed

theorem constant_argument_not_reported_witness:
  "Site edge_const = Some site_const \<and> constant_at qm_Exec site_const
   \<and> edge_body qm_Exec (okFuncs_of [qm_Exec, qm_ExecContext]) edge_const [site_formatted]
       = Inr [site_formatted]
   \<and> FindNonConstCalls graph_mixed [qm_Exec, qm_ExecContext] = (graph_mixed, Inr [site_formatted])
   \<and> edge_const \<in> set (in_edges graph_mixed qm_Exec)
   \<and> site_const \<notin> set [site_formatted]"
proof -
  have a: "Site edge_const = Some site_const" by code_simp
  have b: "constant_at qm_Exec site_const" by code_simp
  have c: "edge_body qm_Exec (okFuncs_of [qm_Exec, qm_ExecContext]) edge_const [site_formatted]
             = Inr [site_formatted]" by code_simp
  have d: "\<forall>m\<in>set [qm_Exec, qm_ExecContext]. \<forall>e\<in>set (in_edges graph_mixed m).
             Site e = Some site_const \<longrightarrow> constant_at m site_const" by code_simp
  have e: "edge_const \<in> set (in_edges graph_mixed qm_Exec)" by code_simp
  from constant_argument_not_reported
         [of edge_const site_const qm_Exec "okFuncs_of [qm_Exec, qm_ExecContext]"
             "[site_formatted]" "[site_formatted]" graph_mixed "[qm_Exec, qm_ExecContext]"
             graph_mixed "[site_formatted]"]
  have "site_const \<notin> set [site_formatted]" using run_graph_mixed d by blast
  then show ?thesis using a b c e run_graph_mixed by blast
qed


text \<open>
  Claim C3.  On an edge the engine does not skip, the inspected value is the argument at
  \<open>m\<close>'s recorded index counted after the first argument, \<open>Args ! (Param m + 1)\<close>, when there
  are \<open>ArgCount m + 1\<close> arguments, and the argument at that index of the arguments as they
  are, \<open>Args ! Param m\<close>, when there are \<open>ArgCount m\<close>; this for a recorded index inside the
  parameter list, and an index outside of it is a bounds panic.  With any other number of
  arguments the loop body panics with \<open>arg count mismatch\<close>, so that \<open>FindNonConstCalls\<close> ends
  in a panic whenever the scanned graph has such an edge.
\<close>

theorem argument_count_adjustment:
  assumes "not_skipped (okFuncs_of qms) e s"
  shows "(int (length (Args s)) = ArgCount m + 1 \<longrightarrow>
            (0 \<le> Param m \<and> Param m < ArgCount m \<longrightarrow>
               edge_body m (okFuncs_of qms) e bad0 =
                 Inr (classify s (Args s ! (nat (Param m) + 1)) bad0))
            \<and> (\<not> (0 \<le> Param m \<and> Param m < ArgCount m) \<longrightarrow>
               edge_body m (okFuncs_of qms) e bad0 =
                 Inl (Panic (if Args s = [] then ''slice bounds out of range''
                             else ''index out of range''))))
       \<and> (int (length (Args s)) = ArgCount m \<longrightarrow>
            (0 \<le> Param m \<and> Param m < ArgCount m \<longrightarrow>
               edge_body m (okFuncs_of qms) e bad0 =
                 Inr (classify s (Args s ! nat (Param m)) bad0))
            \<and> (\<not> (0 \<le> Param m \<and> Param m < ArgCount m) \<longrightarrow>
               edge_body m (okFuncs_of qms) e bad0 = Inl (Panic ''index out of range'')))
       \<and> (int (length (Args s)) \<noteq> ArgCount m + 1 \<and> int (length (Args s)) \<noteq> ArgCount m \<longrightarrow>
            edge_body m (okFuncs_of qms) e bad0 = Inl (Panic ''arg count mismatch'')
            \<and> (m \<in> set qms \<and> e \<in> set (in_edges (DeleteSyntheticNodes cg) m) \<longrightarrow>
                 (\<exists>a. snd (FindNonConstCalls cg qms) = Inl a)))"
proof -
  note body = edge_body_not_skipped [OF assms, of m bad0]
  have drop_in: "edge_body m (okFuncs_of qms) e bad0 =
                   Inr (classify s (Args s ! (nat (Param m) + 1)) bad0)"
    if len: "int (length (Args s)) = ArgCount m + 1"
      and rng: "0 \<le> Param m \<and> Param m < ArgCount m"
  proof -
    obtain a rest where ar: "Args s = a # rest"
      using len rng by (cases "Args s") auto
    have "nat (Param m) < length rest" using len rng ar by auto
    then show ?thesis using len rng ar
      by (simp add: body designated_arg_def select_args_def index_arg_def)
  qed
  have drop_out: "edge_body m (okFuncs_of qms) e bad0 =
                    Inl (Panic (if Args s = [] then ''slice bounds out of range''
                                else ''index out of range''))"
    if len: "int (length (Args s)) = ArgCount m + 1"
      and rng: "\<not> (0 \<le> Param m \<and> Param m < ArgCount m)"
  proof (cases "Args s")
    case Nil
    then show ?thesis using len
      by (simp add: body designated_arg_def select_args_def)
  next
    case (Cons a rest)
    then show ?thesis using len rng
      by (auto simp: body designated_arg_def select_args_def index_arg_def)
  qed
  have keep_in: "edge_body m (okFuncs_of qms) e bad0 =
                   Inr (classify s (Args s ! nat (Param m)) bad0)"
    if len: "int (length (Args s)) = ArgCount m"
      and rng: "0 \<le> Param m \<and> Param m < ArgCount m"
    using len rng by (simp add: body designated_arg_def select_args_def index_arg_def)
  have keep_out: "edge_body m (okFuncs_of qms) e bad0 = Inl (Panic ''index out of range'')"
    if len: "int (length (Args s)) = ArgCount m"
      and rng: "\<not> (0 \<le> Param m \<and> Param m < ArgCount m)"
    using len rng by (auto simp: body designated_arg_def select_args_def index_arg_def)
  have mismatch: "edge_body m (okFuncs_of qms) e b = Inl (Panic ''arg count mismatch'')"
    if "int (length (Args s)) \<noteq> ArgCount m + 1 \<and> int (length (Args s)) \<noteq> ArgCount m" for b
    using that
    by (simp add: edge_body_not_skipped [OF assms] designated_arg_def select_args_def)
  have abort: "\<exists>a. snd (FindNonConstCalls cg qms) = Inl a"
    if h: "int (length (Args s)) \<noteq> ArgCount m + 1 \<and> int (length (Args s)) \<noteq> ArgCount m"
      and g: "m \<in> set qms \<and> e \<in> set (in_edges (DeleteSyntheticNodes cg) m)"
  proof -
    have "aborts m (okFuncs_of qms) e" using mismatch [OF h, of "[]"] by (simp add: aborts_def)
    then show ?thesis using g aborting_edge by blast
  qed
  show ?thesis using drop_in drop_out keep_in keep_out mismatch abort by blast
qed

theorem argument_count_adjustment_witness:
  "not_skipped (okFuncs_of [qm_Exec, qm_ExecContext]) edge_ctx_const site_ctx_const
   \<and> int (length (Args site_ctx_const)) = ArgCount qm_ExecContext + 1
   \<and> Param qm_ExecContext = 1
   \<and> Args site_ctx_const ! (nat (Param qm_ExecContext) + 1) = Const TString ''select 1''
   \<and> edge_body qm_ExecContext (okFuncs_of [qm_Exec, qm_ExecContext]) edge_ctx_const [] = Inr []
   \<and> not_skipped (okFuncs_of [qm_Exec, qm_ExecContext]) edge_ctx_value site_ctx_value
   \<and> int (length (Args site_ctx_value)) = ArgCount qm_ExecContext
   \<and> Args site_ctx_value ! nat (Param qm_ExecContext) = Register ''Call'' TString [140]
   \<and> edge_body qm_ExecContext (okFuncs_of [qm_Exec, qm_ExecContext]) edge_ctx_value []
       = Inr [site_ctx_value]
   \<and> not_skipped (okFuncs_of [qm_Exec, qm_ExecContext]) edge_formatted site_formatted
   \<and> int (length (Args site_formatted)) = ArgCount qm_Exec + 1
   \<and> edge_body qm_Exec (okFuncs_of [qm_Exec, qm_ExecContext]) edge_formatted []
       = Inr [site_formatted]
   \<and> not_skipped (okFuncs_of [qm_Exec]) edge_short site_short
   \<and> int (length (Args site_short)) \<noteq> ArgCount qm_Exec + 1
   \<and> int (length (Args site_short)) \<noteq> ArgCount qm_Exec
   \<and> edge_short \<in> set (in_edges (DeleteSyntheticNodes graph_short) qm_Exec)
   \<and> edge_body qm_Exec (okFuncs_of [qm_Exec]) edge_short [] = Inl (Panic ''arg count mismatch'')
   \<and> (\<exists>a. snd (FindNonConstCalls graph_short [qm_Exec]) = Inl a)"
proof -
  have r1: "0 \<le> Param qm_ExecContext \<and> Param qm_ExecContext < ArgCount qm_ExecContext"
    by code_simp
  have r0: "0 \<le> Param qm_Exec \<and> Param qm_Exec < ArgCount qm_Exec" by code_simp
  have p1: "Param qm_ExecContext = 1" by code_simp
  have a1: "not_skipped (okFuncs_of [qm_Exec, qm_ExecContext]) edge_ctx_const site_ctx_const"
    by code_simp
  have a2: "int (length (Args site_ctx_const)) = ArgCount qm_ExecContext + 1" by code_simp
  have a3: "Args site_ctx_const ! (nat (Param qm_ExecContext) + 1) = Const TString ''select 1''"
    by code_simp
  have a4: "classify site_ctx_const (Const TString ''select 1'') [] = []" by code_simp
  have b1: "not_skipped (okFuncs_of [qm_Exec, qm_ExecContext]) edge_ctx_value site_ctx_value"
    by code_simp
  have b2: "int (length (Args site_ctx_value)) = ArgCount qm_ExecContext" by code_simp
  have b3: "Args site_ctx_value ! nat (Param qm_ExecContext) = Register ''Call'' TString [140]"
    by code_simp
  have b4: "classify site_ctx_value (Register ''Call'' TString [140]) [] = [site_ctx_value]"
    by code_simp
  have d1: "not_skipped (okFuncs_of [qm_Exec, qm_ExecContext]) edge_formatted site_formatted"
    by code_simp
  have d2: "int (length (Args site_formatted)) = ArgCount qm_Exec + 1" by code_simp
  have d3: "classify site_formatted (Args site_formatted ! (nat (Param qm_Exec) + 1)) []
              = [site_formatted]" by code_simp
  have c1: "not_skipped (okFuncs_of [qm_Exec]) edge_short site_short" by code_simp
  have c2: "int (length (Args site_short)) \<noteq> ArgCount qm_Exec + 1" by code_simp
  have c3: "int (length (Args site_short)) \<noteq> ArgCount qm_Exec" by code_simp
  have c4: "edge_short \<in> set (in_edges (DeleteSyntheticNodes graph_short) qm_Exec)" by code_simp
  have c5: "qm_Exec \<in> set [qm_Exec]" by simp
  from argument_count_adjustment [OF a1, of qm_ExecContext "[]" graph_short] a2 r1
  have "edge_body qm_ExecContext (okFuncs_of [qm_Exec, qm_ExecContext]) edge_ctx_const []
          = Inr (classify site_ctx_const
                   (Args site_ctx_const ! (nat (Param qm_ExecContext) + 1)) [])" by blast
  then have A: "edge_body qm_ExecContext (okFuncs_of [qm_Exec, qm_ExecContext]) edge_ctx_const []
                  = Inr []" by (simp only: a3 a4)
  from argument_count_adjustment [OF b1, of qm_ExecContext "[]" graph_short] b2 r1
  have "edge_body qm_ExecContext (okFuncs_of [qm_Exec, qm_ExecContext]) edge_ctx_value []
          = Inr (classify site_ctx_value (Args site_ctx_value ! nat (Param qm_ExecContext)) [])"
    by blast
  then have B: "edge_body qm_ExecContext (okFuncs_of [qm_Exec, qm_ExecContext]) edge_ctx_value []
                  = Inr [site_ctx_value]" by (simp only: b3 b4)
  from argument_count_adjustment [OF d1, of qm_Exec "[]" graph_short] d2 r0
  have "edge_body qm_Exec (okFuncs_of [qm_Exec, qm_ExecContext]) edge_formatted []
          = Inr (classify site_formatted (Args site_formatted ! (nat (Param qm_Exec) + 1)) [])"
    by blast
  then have D: "edge_body qm_Exec (okFuncs_of [qm_Exec, qm_ExecContext]) edge_formatted []
                  = Inr [site_formatted]" by (simp only: d3)
  from argument_count_adjustment [OF c1, of qm_Exec "[]" graph_short] c2 c3 c4 c5
  have C: "edge_body qm_Exec (okFuncs_of [qm_Exec]) edge_short [] = Inl (Panic ''arg count mismatch'')
           \<and> (\<exists>a. snd (FindNonConstCalls graph_short [qm_Exec]) = Inl a)" by blast
  show ?thesis using p1 a1 a2 a3 A b1 b2 b3 B d1 d2 D c1 c2 c3 c4 C by blast
qed

text \<open>
  Claim C6.  An edge whose call site lies in the function of some tracked method is
  skipped: the loop body returns \<open>bad\<close> unchanged whatever the arguments are, and the call
  site is not in the list \<open>FindNonConstCalls\<close> returns.
\<close>

theorem tracked_caller_skipped:
  assumes "m' \<in> set qms" and "SSA m' = Some (Parent s)" and "Site e = Some s"
  shows "edge_body m (okFuncs_of qms) e bad0 = Inr bad0
         \<and> (FindNonConstCalls cg qms = (cg', Inr bad) \<longrightarrow> s \<notin> set bad)"
proof -
  have ok: "Some (Parent s) \<in> okFuncs_of qms"
    using assms(1,2) by (force simp: okFuncs_of_def)
  then have "edge_body m (okFuncs_of qms) e bad0 = Inr bad0"
    using assms(3) by (simp add: edge_body_def)
  moreover have "s \<notin> set bad" if run: "FindNonConstCalls cg qms = (cg', Inr bad)"
  proof
    assume "s \<in> set bad"
    then obtain m e where "s \<in> set (findings m (okFuncs_of qms) e)"
      using run reported_site [of cg qms cg' bad s] by auto
    then show False using ok by (simp add: findings_iff not_skipped_def)
  qed
  ultimately show ?thesis by blast
qed

theorem tracked_caller_skipped_witness:
  "qm_Exec \<in> set [qm_Exec, qm_ExecContext] \<and> SSA qm_Exec = Some (Parent site_delegate)
   \<and> Site edge_delegate = Some site_delegate
   \<and> edge_delegate \<in> set (in_edges graph_mixed qm_ExecContext)
   \<and> \<not> constant_at qm_ExecContext site_delegate
   \<and> edge_body qm_ExecContext (okFuncs_of [qm_Exec, qm_ExecContext]) edge_delegate [] = Inr []
   \<and> FindNonConstCalls graph_mixed [qm_Exec, qm_ExecContext] = (graph_mixed, Inr [site_formatted])
   \<and> site_delegate \<notin> set [site_formatted]"
proof -
  have a: "qm_Exec \<in> set [qm_Exec, qm_ExecContext]" by simp
  have b: "SSA qm_Exec = Some (Parent site_delegate)" by code_simp
  have c: "Site edge_delegate = Some site_delegate" by code_simp
  have d: "edge_delegate \<in> set (in_edges graph_mixed qm_ExecContext)" by code_simp
  have e: "\<not> constant_at qm_ExecContext site_delegate" by code_simp
  from tracked_caller_skipped [OF a b c, of qm_ExecContext "[]" graph_mixed graph_mixed
         "[site_formatted]"]
  show ?thesis using a b c d e run_graph_mixed by blast
qed

subsection \<open>The engine and its graph\<close>

text \<open>
  Claim C5.  When the synthetic nodes have already been removed from the graph, the graph
  is the same after \<open>FindNonConstCalls\<close> as before: the only write of the engine is its
  call of \<open>DeleteSyntheticNodes\<close>, which then finds nothing to delete.
\<close>

theorem FindNonConstCalls_frame:
  "no_synthetic cg \<Longrightarrow> fst (FindNonConstCalls cg qms) = cg"
  by (simp add: FindNonConstCalls_def Let_def DeleteSyntheticNodes_id)

theorem FindNonConstCalls_frame_witness:
  "no_synthetic graph_pass
   \<and> fst (FindNonConstCalls graph_pass [qm_Exec, qm_ExecContext]) = graph_pass"
proof -
  have h: "no_synthetic graph_pass" by code_simp
  from FindNonConstCalls_frame [OF h] show ?thesis using h by simp
qed

text \<open>
  Claim C8.  Running \<open>FindNonConstCalls\<close> a second time, on the graph as the first run left
  it and with the same methods, has the same outcome as the first run: the same list of
  unsafe call sites (or the same panic), and the graph stays as the first run left it.
\<close>

theorem FindNonConstCalls_twice:
  "FindNonConstCalls (fst (FindNonConstCalls cg qms)) qms = FindNonConstCalls cg qms"
  by (simp add: FindNonConstCalls_def Let_def DeleteSyntheticNodes_idem)

theorem FindNonConstCalls_twice_witness:
  "FindNonConstCalls graph_bound [qm_Exec] = (graph_bound_pruned, Inr [site_bound])
   \<and> graph_bound_pruned \<noteq> graph_bound
   \<and> FindNonConstCalls graph_bound_pruned [qm_Exec] = (graph_bound_pruned, Inr [site_bound])"
proof -
  have ne: "graph_bound_pruned \<noteq> graph_bound" by code_simp
  from FindNonConstCalls_twice [of graph_bound "[qm_Exec]"]
  show ?thesis using ne by (simp add: run_graph_bound)
qed

subsection \<open>\<open>run\<close>\<close>

lemma allowlisted_iff:
  "allowlisted sqls path \<longleftrightarrow> (\<exists>sql\<in>set sqls. prefix (packageName sql) path)"
  by (induction sqls) auto

lemma run_allowlisted: "allowlisted sqlPackages (Pkg_Path pass) \<Longrightarrow> run pass = Inr no_result"
  by (simp add: run_def no_result_def)

text \<open>
  Claim C4.  For a package whose path is the path of a catalog library, \<open>run\<close> returns at
  once: no error, no diagnostic, no finding, whatever calls the package contains.
\<close>

theorem library_unit_exempt:
  assumes "sql \<in> set sqlPackages" and "Pkg_Path pass = packageName sql"
  shows "run pass = Inr no_result"
proof -
  have "prefix (packageName sql) (Pkg_Path pass)" using assms(2) by simp
  then have "allowlisted sqlPackages (Pkg_Path pass)"
    using assms(1) allowlisted_iff by blast
  then show ?thesis by (rule run_allowlisted)
qed

theorem library_unit_exempt_witness:
  "hd sqlPackages \<in> set sqlPackages \<and> Pkg_Path pass_sql = packageName (hd sqlPackages)
   \<and> run pass_sql = Inr no_result
   \<and> CheckSafeSqlAst pass_sql = Inr (Some UnsafeQueriesFound,
        [\<lparr>diag_pos = 202, diag_message = ''SQL query with non-static argument''\<rparr>])"
proof -
  have a: "hd sqlPackages \<in> set sqlPackages" by (simp add: sqlPackages_def)
  have b: "Pkg_Path pass_sql = packageName (hd sqlPackages)" by code_simp
  from library_unit_exempt [OF a b] show ?thesis using a b ast_pass_sql by simp
qed

text \<open>
  Claim C10.  The same holds for every package whose path merely starts with
  \<open>database/sql\<close>, \<open>github.com/jinzhu/gorm\<close> or \<open>github.com/jmoiron/sqlx\<close>: the test is
  \<open>strings.HasPrefix\<close>, not equality.
\<close>

theorem prefix_unit_exempt:
  assumes "lib \<in> {''database/sql'', ''github.com/jinzhu/gorm'', ''github.com/jmoiron/sqlx''}"
    and "prefix lib (Pkg_Path pass)"
  shows "run pass = Inr no_result"
proof -
  have "lib \<in> packageName ` set sqlPackages"
    using assms(1) by (auto simp: sqlPackages_def)
  then have "allowlisted sqlPackages (Pkg_Path pass)"
    using assms(2) allowlisted_iff by blast
  then show ?thesis by (rule run_allowlisted)
qed

theorem prefix_unit_exempt_witness:
  "''database/sql'' \<in> {''database/sql'', ''github.com/jinzhu/gorm'', ''github.com/jmoiron/sqlx''}
   \<and> prefix ''database/sql'' (Pkg_Path pass_driver)
   \<and> Pkg_Path pass_driver \<noteq> ''database/sql''
   \<and> run pass_driver = Inr no_result
   \<and> CheckSafeSqlAst pass_driver = Inr (Some UnsafeQueriesFound,
        [\<lparr>diag_pos = 202, diag_message = ''SQL query with non-static argument''\<rparr>])"
proof -
  have a: "''database/sql'' \<in> {''database/sql'', ''github.com/jinzhu/gorm'', ''github.com/jmoiron/sqlx''}"
    by simp
  have b: "prefix ''database/sql'' (Pkg_Path pass_driver)" by code_simp
  have c: "Pkg_Path pass_driver \<noteq> ''database/sql''" by code_simp
  from prefix_unit_exempt [OF a b] show ?thesis using a b c ast_pass_driver by simp
qed
text \<open>
  Claim C9.  For a package that is not exempted, the error \<open>run\<close> returns is the error of
  \<open>CheckSafeSqlAst\<close>; the error of \<open>CheckSafeSqlSsa\<close> is overwritten and has no influence on
  the result, so the findings of the call-graph pass alone never make \<open>run\<close> return an
  error.
\<close>

theorem run_error_is_ast_error:
  assumes "\<not> allowlisted sqlPackages (Pkg_Path pass)"
  shows "(CheckSafeSqlSsa pass = Inr (err1, bad) \<and> CheckSafeSqlAst pass = Inr (err2, ds)
            \<longrightarrow> run pass = Inr \<lparr>run_err = err2, run_reports = ds, run_printed = bad\<rparr>)
       \<and> (run pass = Inr r
            \<longrightarrow> (\<exists>e. CheckSafeSqlSsa pass = Inr (e, run_printed r))
                \<and> CheckSafeSqlAst pass = Inr (run_err r, run_reports r))"
  using assms by (auto simp: run_def split: sum.splits)

theorem run_error_is_ast_error_witness:
  "\<not> allowlisted sqlPackages (Pkg_Path pass_a_pass)
   \<and> CheckSafeSqlSsa pass_a_pass = Inr (None, [])
   \<and> CheckSafeSqlAst pass_a_pass =
       Inr (Some UnsafeQueriesFound,
            [\<lparr>diag_pos = 19, diag_message = ''SQL query with non-static argument''\<rparr>])
   \<and> run pass_a_pass =
       Inr \<lparr>run_err = Some UnsafeQueriesFound,
            run_reports = [\<lparr>diag_pos = 19, diag_message = ''SQL query with non-static argument''\<rparr>],
            run_printed = []\<rparr>"
proof -
  have a: "\<not> allowlisted sqlPackages (Pkg_Path pass_a_pass)" by code_simp
  have "run pass_a_pass =
       Inr \<lparr>run_err = Some UnsafeQueriesFound,
            run_reports = [\<lparr>diag_pos = 19, diag_message = ''SQL query with non-static argument''\<rparr>],
            run_printed = []\<rparr>"
    using run_error_is_ast_error
            [OF a, of None "[]" "Some UnsafeQueriesFound"
               "[\<lparr>diag_pos = 19, diag_message = ''SQL query with non-static argument''\<rparr>]"
               no_result]
      ssa_pass_a_pass ast_pass_a_pass by blast
  then show ?thesis using a ssa_pass_a_pass ast_pass_a_pass by blast
qed

end
